theory Spec2Isabelle
  imports Complex_Main
begin

section \<open>Random-access dataset (training/src/pl\_module.py)\<close>

text \<open>
  Python exceptions that the modelled code can raise are values of \<open>py_error\<close>; a fallible
  function returns \<open>py_error + 'a\<close> with \<open>Inl\<close> for the raised exception.
\<close>

datatype py_error = IndexError | ShapeError | NotANumber | AssertionError

text \<open>
  \<open>PileRandomIODataset\<close>: the fields set by \<open>__init__\<close>. The field \<open>length\<close> of the
  source is \<open>ds_length\<close> here, \<open>index\<close> is \<open>ds_index\<close>.
\<close>

record PileRandomIODataset =
  fpaths :: "string list"
  max_seq_len :: int
  pad_id :: int
  ds_length :: int
  ds_index :: "string list"
  index_keys :: "int list"

text \<open>
  The loop of \<open>__init__\<close> over \<open>enumerate(self.fpaths)\<close>. The row count of a shard is what
  \<open>SELECT COUNT(*) FROM rows\<close> returns for it, a natural number; the loop receives the shards
  as pairs of path and count. \<open>SortedList.add\<close> inserts in sorted position (\<open>insort\<close>).
\<close>

fun init_loop :: "(string \<times> nat) list \<Rightarrow> PileRandomIODataset \<Rightarrow> PileRandomIODataset" where
  "init_loop [] d = d"
| "init_loop ((fpath, num_rows) # rest) d =
     (let len = ds_length d + int num_rows
      in init_loop rest
           (d\<lparr>ds_length := len,
              ds_index := ds_index d @ [fpath],
              index_keys := insort len (index_keys d)\<rparr>))"

definition dataset_init :: "(string \<times> nat) list \<Rightarrow> int \<Rightarrow> int \<Rightarrow> PileRandomIODataset" where
  "dataset_init shards msl pid =
     init_loop shards
       \<lparr>fpaths = map fst shards, max_seq_len = msl, pad_id = pid,
        ds_length = 0, ds_index = [], index_keys = []\<rparr>"

text \<open>
  \<open>SortedList.bisect_left(value)\<close>: the insertion point of \<open>value\<close> to the left of equal
  elements, found by binary search between \<open>lo\<close> and \<open>hi\<close>.
\<close>

function bisect_loop :: "int list \<Rightarrow> int \<Rightarrow> nat \<Rightarrow> nat \<Rightarrow> nat" where
  "bisect_loop a x lo hi =
     (if lo < hi then
        (let mid = (lo + hi) div 2
         in if a ! mid < x then bisect_loop a x (mid + 1) hi
            else bisect_loop a x lo mid)
      else lo)"
  by pat_completeness auto
termination
  by (relation "measure (\<lambda>(a, x, lo, hi). hi - lo)") auto

declare bisect_loop.simps [simp del]

definition bisect_left :: "int list \<Rightarrow> int \<Rightarrow> nat" where
  "bisect_left a x = bisect_loop a x 0 (length a)"

text \<open>
  \<open>_get_db_and_idx\<close>. \<open>self.index[key]\<close> raises \<open>IndexError\<close> when \<open>key\<close> is not below
  the number of shards (\<open>key\<close> is never negative); \<open>self.index_keys[key - 1]\<close> is read
  only for \<open>key > 0\<close>, and \<open>index\<close> and \<open>index_keys\<close> have the same length.
\<close>

definition get_db_and_idx :: "PileRandomIODataset \<Rightarrow> int \<Rightarrow> py_error + (string \<times> int)" where
  "get_db_and_idx d idx =
     (let key = bisect_left (index_keys d) (idx + 1)
      in if key < length (ds_index d) then
           (let fpath = ds_index d ! key;
                key_offset = (if key = 0 then 0 else index_keys d ! (key - 1));
                db_key = idx - key_offset
            in Inr (fpath, db_key))
         else Inl IndexError)"

text \<open>Cumulative row count of the first \<open>i\<close> shards.\<close>

definition cumulative :: "(string \<times> nat) list \<Rightarrow> nat \<Rightarrow> int" where
  "cumulative shards i = int (sum_list (map snd (take i shards)))"

text \<open>The keys that \<open>__init__\<close> stores: the cumulative count after each shard.\<close>

definition keys_of :: "(string \<times> nat) list \<Rightarrow> int list" where
  "keys_of shards = map (\<lambda>i. cumulative shards (Suc i)) [0..<length shards]"

text \<open>The shards of the worked example: row counts 3, 5 and 2.\<close>

definition ex_shards :: "(string \<times> nat) list" where
  "ex_shards = [(''shard0'', 3), (''shard1'', 5), (''shard2'', 2)]"

text \<open>
  A row of a shard, as \<open>__getitem__\<close> reads it: \<open>dataset, seq, pred_start\<close>. The field
  \<open>seq\<close> holds the token list that decompressing, decoding and splitting the stored bytes
  and converting each word with \<open>int\<close> gives.
\<close>

record row =
  dataset :: string
  seq :: "int list"
  pred_start :: int




text \<open>
  \<open>Pile.on_after_batch_transfer\<close>: \<open>batch[:, :-1]\<close> drops the last column, \<open>batch[:, 1:]\<close>
  the first; \<open>mask.type(torch.uint8)\<close> turns the comparison into 0 and 1.
\<close>

definition on_after_batch_transfer ::
  "int list list \<times> 'w \<times> 'd \<Rightarrow> int list list \<times> int list list \<times> int list list \<times> 'w \<times> 'd" where
  "on_after_batch_transfer b =
     (case b of (batch, weights, ds) \<Rightarrow>
        (let x = map butlast batch;
             y = map tl batch;
             msk = map (map (\<lambda>v. if v \<noteq> 0 then 1 else 0)) x
         in (x, y, msk, weights, ds)))"


section \<open>RMSNorm and rotary position embedding (MIVRA/mwm/llama.py)\<close>

text \<open>
  Tensors of floating-point numbers are lists of reals: the model computes in exact
  arithmetic, so a cast between float types is the identity. A result that the code
  fills with NaN is the error \<open>NotANumber\<close>; a shape that the array library rejects
  is \<open>ShapeError\<close>.
\<close>

text \<open>\<open>jnp.square(x).mean(-1)\<close> over the feature axis.\<close>

definition mean_square :: "real list \<Rightarrow> real" where
  "mean_square x = sum_list (map (\<lambda>v. v\<^sup>2) x) / real (length x)"

definition rsqrt :: "real \<Rightarrow> real" where
  "rsqrt y = 1 / sqrt y"

text \<open>\<open>RMSNorm._norm\<close> on one feature vector.\<close>

definition RMSNorm_norm :: "real \<Rightarrow> real list \<Rightarrow> real list" where
  "RMSNorm_norm eps x = map (\<lambda>v. v * rsqrt (mean_square x + eps)) x"

text \<open>
  \<open>RMSNorm.__call__\<close> on one feature vector: \<open>output * weight\<close> multiplies elementwise;
  the weight has shape \<open>(dim,)\<close>, and a feature axis of another length is a shape error
  (broadcasting through an axis of length one is not modelled).
\<close>

definition RMSNorm_call :: "real \<Rightarrow> real list \<Rightarrow> real list \<Rightarrow> py_error + real list" where
  "RMSNorm_call eps weight x =
     (let output = RMSNorm_norm eps x
      in if length output = length weight then Inr (map2 (*) output weight)
         else Inl ShapeError)"



text \<open>
  \<open>reshape(.., -1, 2)\<close> followed by \<open>jax.lax.complex\<close>: adjacent coordinates become the
  real and imaginary part of one complex number. The model applies it to vectors of even
  length only (the shape check of \<open>apply_rotary_emb\<close> below).
\<close>

fun to_complex :: "real list \<Rightarrow> complex list" where
  "to_complex (a # b # rest) = Complex a b # to_complex rest"
| "to_complex _ = []"

text \<open>\<open>jnp.stack((real, imag), axis=-1).reshape(.., -1)\<close>: the pairs laid out again.\<close>

fun of_complex :: "complex list \<Rightarrow> real list" where
  "of_complex [] = []"
| "of_complex (z # zs) = Re z # Im z # of_complex zs"

text \<open>One head vector at one position: \<open>xq_ * freqs_cis\<close>.\<close>

definition rotate_head :: "complex list \<Rightarrow> real list \<Rightarrow> real list" where
  "rotate_head fr x = of_complex (map2 (*) (to_complex x) fr)"








section \<open>Key/value cache and incremental decoding (FlaxLLaMAAttention)\<close>
















section \<open>Selective state-space block (S6, MambaBlock)\<close>

text \<open>
  The layers are written with the torch API; the model follows the torch semantics of
  \<open>Linear\<close>, \<open>Conv1d\<close>, \<open>einsum\<close>, \<open>softplus\<close> and \<open>silu\<close>, for one batch element, over
  the reals. A tensor indexed by position and feature is a list of rows. The feature and
  state sizes of the layers are fixed by the constructors and are taken to agree with each
  other; the model checks the sizes that depend on the input, the number of positions and
  the shape of the mask.
\<close>

record linear =
  weight :: "real list list"
  bias :: "real list"

text \<open>\<open>nn.Linear\<close> on one feature vector: \<open>x W\<^sup>T + b\<close>, \<open>weight\<close> indexed by output, input.\<close>

definition Linear :: "linear \<Rightarrow> real list \<Rightarrow> real list" where
  "Linear l x = map2 (\<lambda>w b. sum_list (map2 (*) w x) + b) (weight l) (bias l)"

text \<open>\<open>F.softplus\<close> with its defaults \<open>beta = 1\<close>, \<open>threshold = 20\<close>.\<close>

definition softplus :: "real \<Rightarrow> real" where
  "softplus z = (if z > 20 then z else ln (1 + exp z))"

definition silu :: "real \<Rightarrow> real" where
  "silu z = z / (1 + exp (- z))"

record S6_params =
  fc1 :: linear
  fc2 :: linear
  fc3 :: linear
  A_log :: "real list list"

text \<open>
  \<open>S6.discretization\<close>: \<open>A = -exp(A_log)\<close>, \<open>dB = einsum("bld,bln->bldn", delta, B)\<close>,
  \<open>dA = exp(einsum("bld,dn->bldn", delta, A))\<close>. The results are indexed by position,
  feature and state.
\<close>

definition S6_A :: "S6_params \<Rightarrow> real list list" where
  "S6_A p = map (map (\<lambda>a. - exp a)) (A_log p)"

definition S6_dB :: "real list list \<Rightarrow> real list list \<Rightarrow> real list list list" where
  "S6_dB delta B = map2 (\<lambda>dl Bl. map (\<lambda>d. map (\<lambda>b. d * b) Bl) dl) delta B"

definition S6_dA :: "real list list \<Rightarrow> real list list \<Rightarrow> real list list list" where
  "S6_dA delta A = map (\<lambda>dl. map2 (\<lambda>d Ad. map (\<lambda>a. exp (d * a)) Ad) dl A) delta"

text \<open>The three \<open>einsum\<close> and broadcast patterns of \<open>S6.forward\<close>.\<close>

definition mul_bldn :: "real list list list \<Rightarrow> real list list list \<Rightarrow> real list list list" where
  "mul_bldn a b = map2 (map2 (map2 (*))) a b"

definition add_bldn :: "real list list list \<Rightarrow> real list list list \<Rightarrow> real list list list" where
  "add_bldn a b = map2 (map2 (map2 (+))) a b"

definition x_times_dB :: "real list list \<Rightarrow> real list list list \<Rightarrow> real list list list" where
  "x_times_dB x dB = map2 (map2 (\<lambda>xd row. map (\<lambda>v. xd * v) row)) x dB"

definition contract_state :: "real list list \<Rightarrow> real list list list \<Rightarrow> real list list" where
  "contract_state C h = map2 (\<lambda>Cl hl. map (\<lambda>hd. sum_list (map2 (*) Cl hd)) hl) C h"

text \<open>
  \<open>S6.forward\<close> with \<open>DIFFERENT_H_STATES_RECURRENT_UPDATE_MECHANISM = 0\<close>, the value the
  module sets: the branch that starts from a zero tensor \<open>h\<close> of shape
  \<open>(self.seq_len, self.d_model, self.state_size)\<close>. The \<open>einsum\<close> with \<open>dA\<close> needs as many
  positions in \<open>x\<close> as \<open>self.seq_len\<close>.
\<close>

definition S6_forward ::
  "S6_params \<Rightarrow> nat \<Rightarrow> nat \<Rightarrow> nat \<Rightarrow> real list list \<Rightarrow> py_error + real list list" where
  "S6_forward p seq_len d_model state_size x =
     (let B = map (Linear (fc2 p)) x;
          C = map (Linear (fc3 p)) x;
          delta = map (\<lambda>xl. map softplus (Linear (fc1 p) xl)) x;
          dA = S6_dA delta (S6_A p);
          dB = S6_dB delta B
      in if length x \<noteq> seq_len then Inl ShapeError
         else
           (let h = replicate seq_len (replicate d_model (replicate state_size 0));
                h = add_bldn (mul_bldn dA h) (x_times_dB x dB);
                y = contract_state C h
            in Inr y))"



text \<open>
  \<open>nn.Conv1d(seq_len, seq_len, kernel_size=3, padding=1)\<close> applied to \<open>x_proj\<close> of shape
  \<open>(batch, seq_len, 2 * d_model)\<close>: the second axis is the channel axis, so the channels are
  the positions and the kernel slides along the features. \<open>conv_weight\<close> is indexed by
  output channel, input channel and tap. Each output row is the bias plus, over the input
  channels, the kernel against the zero-padded input row.
\<close>

definition pad1 :: "real list \<Rightarrow> real list" where
  "pad1 v = 0 # v @ [0]"

definition conv_row :: "real list list \<Rightarrow> real \<Rightarrow> real list list \<Rightarrow> nat \<Rightarrow> real list" where
  "conv_row Wo bo inp len =
     map (\<lambda>j. bo + sum_list (map2 (\<lambda>Woc v. sum_list (map2 (*) Woc (drop j (pad1 v)))) Wo inp))
       [0..<len]"

definition Conv1d :: "real list list list \<Rightarrow> real list \<Rightarrow> real list list \<Rightarrow> py_error + real list list" where
  "Conv1d conv_weight conv_bias inp =
     (if list_all (\<lambda>Wo. length Wo = length inp) conv_weight
      then Inr (map2 (\<lambda>Wo bo. conv_row Wo bo inp (case inp of [] \<Rightarrow> 0 | v # _ \<Rightarrow> length v))
                  conv_weight conv_bias)
      else Inl ShapeError)"

text \<open>
  \<open>tril(ones(seq_len, 2 * d_model))\<close>, with the module-level \<open>seq_len\<close> and \<open>d_model\<close>,
  and the product \<open>x_conv * mask\<close>: row \<open>t\<close> keeps the features \<open>j \<le> t\<close>.
\<close>

definition tril_ones :: "nat \<Rightarrow> nat \<Rightarrow> real list list" where
  "tril_ones rows cols = map (\<lambda>t. map (\<lambda>j. if j \<le> t then 1 else 0) [0..<cols]) [0..<rows]"

definition mul_mask :: "real list list \<Rightarrow> real list list \<Rightarrow> py_error + real list list" where
  "mul_mask x_conv msk =
     (if map length x_conv = map length msk then Inr (map2 (map2 (*)) x_conv msk)
      else Inl ShapeError)"

text \<open>The convolution stage of \<open>MambaBlock.forward\<close>: \<open>x_conv\<close> after the mask.\<close>

definition masked_conv ::
  "real list list list \<Rightarrow> real list \<Rightarrow> nat \<Rightarrow> nat \<Rightarrow> real list list \<Rightarrow> py_error + real list list" where
  "masked_conv conv_weight conv_bias g_seq_len g_d_model x_proj =
     (case Conv1d conv_weight conv_bias x_proj of
        Inl e \<Rightarrow> Inl e
      | Inr x_conv \<Rightarrow> mul_mask x_conv (tril_ones g_seq_len (2 * g_d_model)))"

record MambaBlock_params =
  inp_proj :: linear
  out_proj :: linear
  D :: linear
  S6 :: S6_params
  conv_weight :: "real list list list"
  conv_bias :: "real list"
  norm_weight :: "real list"
  norm_eps :: real

text \<open>Running a fallible step on each row.\<close>

fun map_err :: "('a \<Rightarrow> py_error + 'b) \<Rightarrow> 'a list \<Rightarrow> py_error + 'b list" where
  "map_err f [] = Inr []"
| "map_err f (x # xs) =
     (case f x of
        Inl e \<Rightarrow> Inl e
      | Inr y \<Rightarrow> (case map_err f xs of Inl e \<Rightarrow> Inl e | Inr ys \<Rightarrow> Inr (y # ys)))"

text \<open>
  \<open>MambaBlock.forward\<close>, in the order of the source: the optional attention mask, the
  RMSNorm, the expansion \<open>inp_proj\<close>, the convolution and its mask, SiLU, the S6 block on
  \<open>2 * d_model\<close> features, the gate \<open>silu(D(x))\<close>, the product of the two branches and
  \<open>out_proj\<close>. \<open>seq_len\<close>, \<open>d_model\<close> and \<open>state_size\<close> are the constructor's arguments,
  \<open>g_seq_len\<close> and \<open>g_d_model\<close> the module-level values that the mask uses.
\<close>

definition MambaBlock_forward ::
  "MambaBlock_params \<Rightarrow> nat \<Rightarrow> nat \<Rightarrow> nat \<Rightarrow> nat \<Rightarrow> nat \<Rightarrow> real list list
     \<Rightarrow> real list option \<Rightarrow> py_error + real list list" where
  "MambaBlock_forward p seq_len d_model state_size g_seq_len g_d_model x attention_mask =
     (let x = (case attention_mask of
                 None \<Rightarrow> x
               | Some am \<Rightarrow> map2 (\<lambda>xl a. map (\<lambda>v. v * a) xl) x am)
      in case map_err (RMSNorm_call (norm_eps p) (norm_weight p)) x of
           Inl e \<Rightarrow> Inl e
         | Inr x \<Rightarrow>
             (let x_proj = map (Linear (inp_proj p)) x
              in case masked_conv (conv_weight p) (conv_bias p) g_seq_len g_d_model x_proj of
                   Inl e \<Rightarrow> Inl e
                 | Inr x_conv \<Rightarrow>
                     (let x_conv_act = map (map silu) x_conv
                      in case S6_forward (S6 p) seq_len (2 * d_model) state_size x_conv_act of
                           Inl e \<Rightarrow> Inl e
                         | Inr x_ssm \<Rightarrow>
                             (let x_residual = map (\<lambda>xl. map silu (Linear (D p) xl)) x;
                                  x_combined = map2 (map2 (*)) x_ssm x_residual;
                                  x_out = map (Linear (out_proj p)) x_combined
                              in Inr x_out))))"




section \<open>Properties of the dataset index\<close>

lemma cumulative_mono: "i \<le> j \<Longrightarrow> cumulative shards i \<le> cumulative shards j"
proof -
  assume "i \<le> j"
  then obtain k where j: "j = i + k" using le_Suc_ex by blast
  have "take (i + k) shards = take i shards @ take k (drop i shards)"
    by (simp add: take_add)
  then show ?thesis by (simp add: cumulative_def j)
qed

lemma cumulative_snoc:
  "cumulative (pre @ [(fp, n)]) (Suc (length pre)) = cumulative pre (length pre) + int n"
  by (simp add: cumulative_def)

lemma cumulative_append_le:
  "i \<le> length pre \<Longrightarrow> cumulative (pre @ rest) i = cumulative pre i"
  by (simp add: cumulative_def)

lemma keys_of_snoc:
  "keys_of (pre @ [s]) = keys_of pre @ [cumulative (pre @ [s]) (Suc (length pre))]"
  by (simp add: keys_of_def cumulative_append_le)

lemma sorted_keys_of: "sorted (keys_of shards)"
  by (simp add: keys_of_def sorted_iff_nth_mono cumulative_mono)

lemma init_loop_inv:
  "ds_length d = cumulative pre (length pre) \<Longrightarrow> ds_index d = map fst pre \<Longrightarrow>
   index_keys d = keys_of pre \<Longrightarrow>
   ds_length (init_loop rest d) = cumulative (pre @ rest) (length (pre @ rest)) \<and>
   ds_index (init_loop rest d) = map fst (pre @ rest) \<and>
   index_keys (init_loop rest d) = keys_of (pre @ rest)"
proof (induction rest arbitrary: d pre)
  case Nil
  then show ?case by simp
next
  case (Cons s rest)
  obtain fp n where s: "s = (fp, n)" by (cases s)
  let ?len = "ds_length d + int n"
  let ?d = "d\<lparr>ds_length := ?len, ds_index := ds_index d @ [fp],
              index_keys := insort ?len (index_keys d)\<rparr>"
  have len: "?len = cumulative (pre @ [s]) (length (pre @ [s]))"
    using Cons.prems(1) by (simp add: s cumulative_def)
  have "\<forall>k \<in> set (keys_of pre). k \<le> ?len"
  proof
    fix k assume "k \<in> set (keys_of pre)"
    then obtain i where i: "i < length pre" "k = cumulative pre (Suc i)"
      by (auto simp: keys_of_def)
    have "cumulative pre (Suc i) \<le> cumulative pre (length pre)"
      using i(1) by (intro cumulative_mono) simp
    then show "k \<le> ?len" using i(2) Cons.prems(1) by simp
  qed
  then have "insort ?len (keys_of pre) = keys_of pre @ [?len]"
    by (intro sorted_insort_is_snoc sorted_keys_of) 
  then have keys: "index_keys ?d = keys_of (pre @ [s])"
    using Cons.prems(3) len by (simp add: keys_of_snoc)
  have "ds_length (init_loop rest ?d) = cumulative ((pre @ [s]) @ rest) (length ((pre @ [s]) @ rest)) \<and>
   ds_index (init_loop rest ?d) = map fst ((pre @ [s]) @ rest) \<and>
   index_keys (init_loop rest ?d) = keys_of ((pre @ [s]) @ rest)"
    apply (rule Cons.IH)
    using len apply simp
    using Cons.prems(2) apply (simp add: s)
    using keys apply simp
    done
  then show ?case by (simp add: s Let_def)
qed

lemma dataset_init_fields:
  "ds_index (dataset_init shards msl pid) = map fst shards"
  "index_keys (dataset_init shards msl pid) = keys_of shards"
  "ds_length (dataset_init shards msl pid) = cumulative shards (length shards)"
  using init_loop_inv[of "\<lparr>fpaths = map fst shards, max_seq_len = msl, pad_id = pid,
        ds_length = 0, ds_index = [], index_keys = []\<rparr>" "[]" shards]
  by (simp_all add: dataset_init_def cumulative_def keys_of_def)

lemma bisect_loop_correct:
  "sorted a \<Longrightarrow> lo \<le> hi \<Longrightarrow> hi \<le> length a \<Longrightarrow>
   (\<forall>i<lo. a ! i < x) \<Longrightarrow> (\<forall>i. hi \<le> i \<and> i < length a \<longrightarrow> x \<le> a ! i) \<Longrightarrow>
   (let r = bisect_loop a x lo hi in
      r \<le> length a \<and> (\<forall>i<r. a ! i < x) \<and> (\<forall>i. r \<le> i \<and> i < length a \<longrightarrow> x \<le> a ! i))"
proof (induction a x lo hi rule: bisect_loop.induct)
  case (1 a x lo hi)
  show ?case
  proof (cases "lo < hi")
    case False
    with "1.prems" have "lo = hi" by simp
    with "1.prems" False show ?thesis
      by (subst bisect_loop.simps) (simp add: Let_def)
  next
    case True
    let ?mid = "(lo + hi) div 2"
    have mid: "lo \<le> ?mid" "?mid < hi" using True by auto
    show ?thesis
    proof (cases "a ! ?mid < x")
      case lt: True
      have below: "\<forall>i<?mid + 1. a ! i < x"
      proof (intro allI impI)
        fix i assume "i < ?mid + 1"
        then have "i \<le> ?mid" by simp
        then have "a ! i \<le> a ! ?mid"
          using "1.prems"(1,3) mid by (intro sorted_nth_mono) auto
        with lt show "a ! i < x" by simp
      qed
      have "let r = bisect_loop a x (?mid + 1) hi in
         r \<le> length a \<and> (\<forall>i<r. a ! i < x) \<and> (\<forall>i. r \<le> i \<and> i < length a \<longrightarrow> x \<le> a ! i)"
        using "1.IH"(1)[OF True refl lt "1.prems"(1) _ "1.prems"(3) below "1.prems"(5)] mid
        by simp
      then show ?thesis using True lt
        by (subst bisect_loop.simps) (simp add: Let_def)
    next
      case ge: False
      have above: "\<forall>i. ?mid \<le> i \<and> i < length a \<longrightarrow> x \<le> a ! i"
      proof (intro allI impI)
        fix i assume i: "?mid \<le> i \<and> i < length a"
        then have "a ! ?mid \<le> a ! i"
          using "1.prems"(1) by (intro sorted_nth_mono) auto
        with ge show "x \<le> a ! i" by simp
      qed
      have "let r = bisect_loop a x lo ?mid in
         r \<le> length a \<and> (\<forall>i<r. a ! i < x) \<and> (\<forall>i. r \<le> i \<and> i < length a \<longrightarrow> x \<le> a ! i)"
        using "1.IH"(2)[OF True refl ge "1.prems"(1) mid(1) _ "1.prems"(4) above] mid "1.prems"(3)
        by simp
      then show ?thesis using True ge
        by (subst bisect_loop.simps) (simp add: Let_def)
    qed
  qed
qed

lemma bisect_left_correct:
  assumes "sorted a"
  shows "bisect_left a x \<le> length a"
    and "\<forall>i<bisect_left a x. a ! i < x"
    and "\<forall>i. bisect_left a x \<le> i \<and> i < length a \<longrightarrow> x \<le> a ! i"
  using bisect_loop_correct[of a 0 "length a" x] assms
  by (simp_all add: bisect_left_def Let_def)


lemma keys_of_nth: "i < length shards \<Longrightarrow> keys_of shards ! i = cumulative shards (Suc i)"
  by (simp add: keys_of_def)

lemma length_keys_of: "length (keys_of shards) = length shards"
  by (simp add: keys_of_def)

lemma cumulative_0: "cumulative shards 0 = 0"
  by (simp add: cumulative_def)

lemma resolve_in_range:
  assumes "0 \<le> g" and "g < cumulative shards (length shards)"
  shows "\<exists>i<length shards.
           get_db_and_idx (dataset_init shards msl pid) g
             = Inr (fst (shards ! i), g - cumulative shards i) \<and>
           g < cumulative shards (Suc i) \<and>
           (\<forall>j<i. cumulative shards (Suc j) \<le> g)"
proof -
  let ?keys = "keys_of shards"
  let ?key = "bisect_left ?keys (g + 1)"
  have srt: "sorted ?keys" by (rule sorted_keys_of)
  note bl = bisect_left_correct[OF srt, of "g + 1"]
  have key_lt: "?key < length shards"
  proof (rule ccontr)
    assume "\<not> ?key < length shards"
    then have "?key = length shards" using bl(1) by (simp add: length_keys_of)
    moreover have "0 < length shards" using assms by (cases shards) (auto simp: cumulative_def)
    ultimately have "?keys ! (length shards - 1) < g + 1"
      using bl(2) by simp
    then show False using assms(2) \<open>0 < length shards\<close> by (simp add: keys_of_nth)
  qed
  have above: "g < cumulative shards (Suc ?key)"
    using bl(3) key_lt by (auto simp: length_keys_of keys_of_nth dest!: spec[of _ "?key"])
  have below: "\<forall>j<?key. cumulative shards (Suc j) \<le> g"
  proof (intro allI impI)
    fix j assume j: "j < ?key"
    then have "?keys ! j < g + 1" using bl(2) by blast
    then show "cumulative shards (Suc j) \<le> g" using j key_lt by (simp add: keys_of_nth)
  qed
  have off: "0 < ?key \<Longrightarrow> ?keys ! (?key - Suc 0) = cumulative shards ?key"
    using key_lt by (simp add: keys_of_nth)
  have "get_db_and_idx (dataset_init shards msl pid) g
          = Inr (fst (shards ! ?key), g - cumulative shards ?key)"
    using key_lt off by (simp add: get_db_and_idx_def dataset_init_fields Let_def cumulative_0)
  with key_lt above below show ?thesis by blast
qed

lemma resolve_at_total:
  "get_db_and_idx (dataset_init shards msl pid) (cumulative shards (length shards)) = Inl IndexError"
proof -
  let ?keys = "keys_of shards"
  let ?g = "cumulative shards (length shards)"
  let ?key = "bisect_left ?keys (?g + 1)"
  have srt: "sorted ?keys" by (rule sorted_keys_of)
  note bl = bisect_left_correct[OF srt, of "?g + 1"]
  have "\<not> ?key < length shards"
  proof
    assume lt: "?key < length shards"
    then have "?g + 1 \<le> ?keys ! ?key" using bl(3) by (simp add: length_keys_of)
    moreover have "cumulative shards (Suc ?key) \<le> ?g" using lt by (intro cumulative_mono) simp
    ultimately show False using lt by (simp add: keys_of_nth)
  qed
  then show ?thesis by (simp add: get_db_and_idx_def dataset_init_fields Let_def)
qed

lemma ex_keys: "index_keys (dataset_init ex_shards 8 0) = [3, 8, 10]"
  "ds_index (dataset_init ex_shards 8 0) = [''shard0'', ''shard1'', ''shard2'']"
  by (simp_all add: dataset_init_def ex_shards_def Let_def)

text \<open>
  Claim C5. For shards with row counts \<open>c\<^sub>0 .. c\<^sub>k\<^sub>-\<^sub>1\<close> and a global index \<open>g\<close> with
  \<open>0 \<le> g < sum c\<close>, \<open>_get_db_and_idx\<close> returns the path of the smallest shard \<open>i\<close> whose
  cumulative count exceeds \<open>g\<close> and the local row id \<open>g\<close> minus the cumulative count of the
  shards before \<open>i\<close>; for \<open>g = sum c\<close> it raises \<open>IndexError\<close>. For the counts 3, 5, 2 the
  indices 0, 2, 3, 9 resolve to (shard0, 0), (shard0, 2), (shard1, 0), (shard2, 1) and
  index 10 raises.
\<close>

theorem get_db_and_idx_resolves:
  "(0 \<le> g \<and> g < cumulative shards (length shards) \<longrightarrow>
      (\<exists>i<length shards.
          get_db_and_idx (dataset_init shards msl pid) g
            = Inr (fst (shards ! i), g - cumulative shards i) \<and>
          g < cumulative shards (Suc i) \<and>
          (\<forall>j<i. cumulative shards (Suc j) \<le> g))) \<and>
   get_db_and_idx (dataset_init shards msl pid) (cumulative shards (length shards))
     = Inl IndexError \<and>
   get_db_and_idx (dataset_init ex_shards 8 0) 0 = Inr (''shard0'', 0) \<and>
   get_db_and_idx (dataset_init ex_shards 8 0) 2 = Inr (''shard0'', 2) \<and>
   get_db_and_idx (dataset_init ex_shards 8 0) 3 = Inr (''shard1'', 0) \<and>
   get_db_and_idx (dataset_init ex_shards 8 0) 9 = Inr (''shard2'', 1) \<and>
   get_db_and_idx (dataset_init ex_shards 8 0) 10 = Inl IndexError"
proof -
  have ex: "get_db_and_idx (dataset_init ex_shards 8 0) 0 = Inr (''shard0'', 0)"
    "get_db_and_idx (dataset_init ex_shards 8 0) 2 = Inr (''shard0'', 2)"
    "get_db_and_idx (dataset_init ex_shards 8 0) 3 = Inr (''shard1'', 0)"
    "get_db_and_idx (dataset_init ex_shards 8 0) 9 = Inr (''shard2'', 1)"
    "get_db_and_idx (dataset_init ex_shards 8 0) 10 = Inl IndexError"
    by (simp_all add: get_db_and_idx_def ex_keys bisect_left_def bisect_loop.simps Let_def)
  show ?thesis
    using resolve_in_range[of g shards msl pid] resolve_at_total[of shards msl pid] ex
    by blast
qed

theorem get_db_and_idx_resolves_witness:
  "(0::int) \<le> 9 \<and> 9 < cumulative ex_shards (length ex_shards) \<and>
   (\<exists>i<length ex_shards.
       get_db_and_idx (dataset_init ex_shards 8 0) 9
         = Inr (fst (ex_shards ! i), 9 - cumulative ex_shards i) \<and>
       9 < cumulative ex_shards (Suc i) \<and>
       (\<forall>j<i. cumulative ex_shards (Suc j) \<le> 9))"
proof -
  have h: "(0::int) \<le> 9 \<and> 9 < cumulative ex_shards (length ex_shards)"
    by (simp add: cumulative_def ex_shards_def)
  with get_db_and_idx_resolves[of 9 ex_shards 8 0] show ?thesis by blast
qed

section \<open>Properties of example construction and batch transfer\<close>









text \<open>
  Claim C10. \<open>on_after_batch_transfer\<close> returns \<open>x = b[:, :-1]\<close> and \<open>y = b[:, 1:]\<close>, so
  \<open>y[r][t] = x[r][t + 1]\<close> for every \<open>t < seq_len - 1\<close>, and the mask entry is 0 exactly
  where the token of \<open>x\<close> is the literal 0, whatever the pad id of the dataset: a real token
  0 is masked out and a nonzero pad id is not.
\<close>

theorem on_after_batch_transfer_shift_and_mask:
  "on_after_batch_transfer (batch, w, ds) = (x, y, msk, w', ds') \<longrightarrow>
     x = map butlast batch \<and> y = map tl batch \<and> w' = w \<and> ds' = ds \<and>
     length msk = length batch \<and>
     (\<forall>r<length batch.
        length (x ! r) = length (batch ! r) - 1 \<and>
        length (y ! r) = length (batch ! r) - 1 \<and>
        length (msk ! r) = length (x ! r) \<and>
        (\<forall>t<length (x ! r). x ! r ! t = batch ! r ! t \<and> y ! r ! t = batch ! r ! Suc t) \<and>
        (\<forall>t. Suc t < length (x ! r) \<longrightarrow> y ! r ! t = x ! r ! Suc t) \<and>
        (\<forall>t<length (x ! r). msk ! r ! t = (if x ! r ! t = 0 then 0 else 1)) \<and>
        (\<forall>pid t. pid \<noteq> 0 \<and> t < length (x ! r) \<and> x ! r ! t = pid \<longrightarrow> msk ! r ! t = 1))"
  by (auto simp: on_after_batch_transfer_def Let_def nth_butlast nth_tl)

theorem on_after_batch_transfer_shift_and_mask_witness:
  "on_after_batch_transfer ([[5, 0, 6, 7, 7], [0, 8, 9, 7, 7]], [[0, 1, 1, 1], [0, 0, 1, 1 :: int]], ''pile'')
     = ([[5, 0, 6, 7], [0, 8, 9, 7]], [[0, 6, 7, 7], [8, 9, 7, 7]],
        [[1, 0, 1, 1], [0, 1, 1, 1]], [[0, 1, 1, 1], [0, 0, 1, 1 :: int]], ''pile'') \<and>
   [[5, 0, 6, 7], [0, 8, 9, 7]] = map butlast [[5, 0, 6, 7, 7], [0, 8, 9, 7, 7 :: int]] \<and>
   [[0, 6, 7, 7], [8, 9, 7, 7]] = map tl [[5, 0, 6, 7, 7], [0, 8, 9, 7, 7 :: int]]"
proof -
  have h: "on_after_batch_transfer ([[5, 0, 6, 7, 7], [0, 8, 9, 7, 7]], [[0, 1, 1, 1], [0, 0, 1, 1 :: int]], ''pile'')
     = ([[5, 0, 6, 7], [0, 8, 9, 7]], [[0, 6, 7, 7], [8, 9, 7, 7]],
        [[1, 0, 1, 1], [0, 1, 1, 1]], [[0, 1, 1, 1], [0, 0, 1, 1 :: int]], ''pile'')"
    by (simp add: on_after_batch_transfer_def)
  from on_after_batch_transfer_shift_and_mask[of "[[5, 0, 6, 7, 7], [0, 8, 9, 7, 7]]" "[[0, 1, 1, 1], [0, 0, 1, 1 :: int]]" "''pile''"
      "[[5, 0, 6, 7], [0, 8, 9, 7]]" "[[0, 6, 7, 7], [8, 9, 7, 7]]"
      "[[1, 0, 1, 1], [0, 1, 1, 1]]" "[[0, 1, 1, 1], [0, 0, 1, 1 :: int]]" "''pile''"] h
  show ?thesis by blast
qed

section \<open>Properties of RMSNorm\<close>







section \<open>Properties of the rotary embedding\<close>

lemma of_to_complex: "even (length x) \<Longrightarrow> of_complex (to_complex x) = x"
  by (induction x rule: to_complex.induct) auto







lemma rotate_head_pairs:
  "rotate_head (c # fr) (a # b # x)
     = (a * Re c - b * Im c) # (a * Im c + b * Re c) # rotate_head fr x"
  by (simp add: rotate_head_def)





















section \<open>Properties of the key/value cache\<close>











section \<open>Incremental decoding and prefill\<close>
























section \<open>The state-space block on concrete inputs\<close>






end
